theory Spec2Isabelle
  imports Main "HOL-Library.AList"
begin

section \<open>The values the middleware handles\<close>

text \<open>
  \<^verbatim>\<open>actionFlow\<close> (src/actionFlow.js) receives an action, reads its \<^verbatim>\<open>promise\<close> and
  \<^verbatim>\<open>types\<close> properties and calls the host's \<^verbatim>\<open>next\<close> with objects it builds. The values
  are JavaScript data: primitives, arrays, plain objects and native promises. A plain
  object is the list of its own enumerable properties in property order. A promise is
  described by how it settles in the end: fulfilled with a value, rejected with a reason,
  or never (\<open>Pending\<close>). \<open>JTypeError\<close> is the error object the language raises when a value
  is not iterable or not callable. Numbers are the integers and \<open>JNaN\<close>; function values
  are not part of the data, so no object here has a callable \<^verbatim>\<open>then\<close> of its own.
\<close>

datatype 'a settlement = Fulfilled 'a | Rejected 'a | Pending

datatype jsval =
    JUndefined
  | JNull
  | JBool bool
  | JNum int
  | JNaN
  | JStr string
  | JArr "jsval list"
  | JObj "(string \<times> jsval) list"
  | JPromise "jsval settlement"
  | JTypeError

type_synonym props = "(string \<times> jsval) list"

text \<open>The test \<^verbatim>\<open>!promise\<close>: a value is falsy when it is undefined, null, false, 0, NaN
  or the empty string; everything else (every object, array and promise) is truthy.\<close>

fun truthy :: "jsval \<Rightarrow> bool" where
  "truthy JUndefined = False"
| "truthy JNull = False"
| "truthy (JBool b) = b"
| "truthy (JNum n) = (n \<noteq> 0)"
| "truthy JNaN = False"
| "truthy (JStr s) = (s \<noteq> [])"
| "truthy (JArr xs) = True"
| "truthy (JObj fs) = True"
| "truthy (JPromise s) = True"
| "truthy JTypeError = True"

text \<open>Reading a property: the value stored under the name, \<^verbatim>\<open>undefined\<close> when the object
  has no such property.\<close>

definition get_prop :: "props \<Rightarrow> string \<Rightarrow> jsval" where
  "get_prop fs k = (case map_of fs k of None \<Rightarrow> JUndefined | Some v \<Rightarrow> v)"

text \<open>The rest pattern \<^verbatim>\<open>{ promise, types, ...rest }\<close>: the remaining own properties, in
  their order.\<close>

definition rest_of :: "props \<Rightarrow> props" where
  "rest_of fs = AList.delete ''types'' (AList.delete ''promise'' fs)"

text \<open>A property written in an object literal after a spread (\<^verbatim>\<open>{ ...rest, type: T }\<close>):
  an existing property of that name keeps its place and takes the new value, a new
  property is added at the end.\<close>

definition set_prop :: "string \<Rightarrow> jsval \<Rightarrow> props \<Rightarrow> props" where
  "set_prop k v fs = AList.update k v fs"

text \<open>The array pattern \<^verbatim>\<open>[REQUEST, SUCCESS, FAILURE] = types\<close> iterates \<^verbatim>\<open>types\<close>. Arrays
  yield their elements and strings their characters; any other value here is not
  iterable, which raises a TypeError. A position past the end is \<^verbatim>\<open>undefined\<close>.\<close>

fun iterate :: "jsval \<Rightarrow> jsval list option" where
  "iterate (JArr xs) = Some xs"
| "iterate (JStr s) = Some (map (\<lambda>c. JStr [c]) s)"
| "iterate _ = None"

definition element :: "jsval list \<Rightarrow> nat \<Rightarrow> jsval" where
  "element xs i = (if i < length xs then xs ! i else JUndefined)"

section \<open>The host pipeline\<close>

text \<open>
  \<^verbatim>\<open>next\<close> is the rest of the dispatch pipeline, which the middleware consumes: it takes an
  action, may change the host's state \<open>'h\<close> (the store, the later middlewares) and returns
  a result. The pipeline is taken to return for every action it is given: the specification
  names the rejection of the action's promise as the only class of error, and the
  middleware has no handler that would treat an exception of \<^verbatim>\<open>next\<close> in any way. A world
  is the host's state together with the list of actions handed to \<^verbatim>\<open>next\<close> so far, oldest
  first.
\<close>

type_synonym 'h pipeline = "jsval \<Rightarrow> 'h \<Rightarrow> jsval \<times> 'h"

record 'h world =
  dispatched :: "jsval list"
  host :: 'h

definition dispatch :: "'h pipeline \<Rightarrow> jsval \<Rightarrow> 'h world \<Rightarrow> jsval \<times> 'h world" where
  "dispatch next action w =
     (let (r, h) = next action (host w)
      in (r, \<lparr>dispatched = dispatched w @ [action], host = h\<rparr>))"

section \<open>The middleware\<close>

text \<open>
  How a call of the middleware completes: it returns a value, it throws, or it returns the
  promise made by \<^verbatim>\<open>promise.then(onFulfilled, onRejected)\<close>. That promise is written
  \<open>Chained s rest SUCCESS FAILURE\<close>: \<open>s\<close> is how the action's promise settles, and
  \<open>rest\<close>, \<open>SUCCESS\<close> and \<open>FAILURE\<close> are what the two callbacks have captured.
\<close>

datatype completion =
    Returned jsval
  | Thrown jsval
  | Chained "jsval settlement" props jsval jsval

fun actionFlow :: "'h pipeline \<Rightarrow> jsval \<Rightarrow> 'h world \<Rightarrow> completion \<times> 'h world" where
  "actionFlow next JUndefined w = (Thrown JTypeError, w)"
| "actionFlow next JNull w = (Thrown JTypeError, w)"
| "actionFlow next (JObj fs) w =
     (let promise = get_prop fs ''promise'';
          types = get_prop fs ''types'';
          rest = rest_of fs
      in if \<not> truthy promise
         then (let (r, w') = dispatch next (JObj fs) w in (Returned r, w'))
         else (case iterate types of
                 None \<Rightarrow> (Thrown JTypeError, w)
               | Some ts \<Rightarrow>
                   (let REQUEST = element ts 0;
                        SUCCESS = element ts 1;
                        FAILURE = element ts 2;
                        (r, w') = dispatch next (JObj (set_prop ''type'' REQUEST rest)) w
                    in (case promise of
                          JPromise s \<Rightarrow> (Chained s rest SUCCESS FAILURE, w')
                        | _ \<Rightarrow> (Thrown JTypeError, w')))))"
| "actionFlow next action w = (let (r, w') = dispatch next action w in (Returned r, w'))"

text \<open>
  The first two equations are the object pattern applied to \<^verbatim>\<open>undefined\<close> or \<^verbatim>\<open>null\<close>,
  which raises. The last one covers the other values that are not plain objects: they
  have no \<^verbatim>\<open>promise\<close> property, so they are forwarded. In the third, \<^verbatim>\<open>promise.then\<close> on a
  value that is not a promise is a call of \<^verbatim>\<open>undefined\<close>, which raises after the REQUEST
  action has been dispatched.
\<close>

subsection \<open>The two callbacks\<close>

datatype outcome = Return jsval | Throw jsval

text \<open>\<^verbatim>\<open>(value) => next({ ...rest, value, type: SUCCESS })\<close>\<close>

definition onFulfilled ::
  "'h pipeline \<Rightarrow> props \<Rightarrow> jsval \<Rightarrow> jsval \<Rightarrow> 'h world \<Rightarrow> outcome \<times> 'h world" where
  "onFulfilled next rest SUCCESS value w =
     (let (r, w') = dispatch next (JObj (set_prop ''type'' SUCCESS (set_prop ''value'' value rest))) w
      in (Return r, w'))"

text \<open>\<^verbatim>\<open>(error) => { next({ ...rest, error, type: FAILURE }); throw error }\<close>\<close>

definition onRejected ::
  "'h pipeline \<Rightarrow> props \<Rightarrow> jsval \<Rightarrow> jsval \<Rightarrow> 'h world \<Rightarrow> outcome \<times> 'h world" where
  "onRejected next rest FAILURE error w =
     (let (r, w') = dispatch next (JObj (set_prop ''type'' FAILURE (set_prop ''error'' error rest))) w
      in (Throw error, w'))"

subsection \<open>Settlement of the returned promise\<close>

text \<open>
  Resolving a promise with a value: a promise given as the value is adopted (the new
  promise settles as that one does), any other value fulfils it.
\<close>

fun resolve :: "jsval \<Rightarrow> jsval settlement" where
  "resolve (JPromise (Fulfilled v)) = resolve v"
| "resolve (JPromise (Rejected e)) = Rejected e"
| "resolve (JPromise Pending) = Pending"
| "resolve v = Fulfilled v"

fun settle :: "outcome \<Rightarrow> jsval settlement" where
  "settle (Return r) = resolve r"
| "settle (Throw e) = Rejected e"

text \<open>
  What \<^verbatim>\<open>then\<close> arranges: when the action's promise is fulfilled the first callback runs
  with the value, when it is rejected the second runs with the reason, and the promise
  that \<^verbatim>\<open>then\<close> returned settles by the callback's outcome. A promise that never settles
  runs neither, and the returned promise never settles either. \<open>react\<close> gives the
  settlement of the returned promise and the world the callback leaves.
\<close>

definition react ::
  "'h pipeline \<Rightarrow> jsval settlement \<Rightarrow> props \<Rightarrow> jsval \<Rightarrow> jsval \<Rightarrow> 'h world
     \<Rightarrow> jsval settlement \<times> 'h world" where
  "react next s rest SUCCESS FAILURE w =
     (case s of
        Fulfilled value \<Rightarrow> (let (c, w') = onFulfilled next rest SUCCESS value w in (settle c, w'))
      | Rejected error \<Rightarrow> (let (c, w') = onRejected next rest FAILURE error w in (settle c, w'))
      | Pending \<Rightarrow> (Pending, w))"

subsection \<open>A whole run\<close>

text \<open>
  A run is the call of the middleware followed, when it returned a chained promise, by the
  reaction to the action's promise. The callbacks never run inside the call itself, also
  for a promise that is already settled; \<open>later\<close> is what happens to the host's state
  between the return of the call and the reaction. \<open>result\<close> is how the call completed,
  \<open>settled\<close> how the returned promise settles (\<open>None\<close> when no promise was returned) and
  \<open>final\<close> the world at the end.
\<close>

record 'h run =
  result :: completion
  settled :: "jsval settlement option"
  final :: "'h world"

definition lifetime :: "'h pipeline \<Rightarrow> ('h \<Rightarrow> 'h) \<Rightarrow> jsval \<Rightarrow> 'h world \<Rightarrow> 'h run" where
  "lifetime next later action w =
     (case actionFlow next action w of
        (Chained s rest SUCCESS FAILURE, w1) \<Rightarrow>
          (let (d, w2) = react next s rest SUCCESS FAILURE (w1\<lparr>host := later (host w1)\<rparr>)
           in \<lparr>result = Chained s rest SUCCESS FAILURE, settled = Some d, final = w2\<rparr>)
      | (c, w1) \<Rightarrow> \<lparr>result = c, settled = None, final = w1\<rparr>)"

section \<open>Vocabulary of the statements\<close>

text \<open>The properties of a value as a map: those of the object, none for any other value.
  Two objects with the same map have the same properties with the same values, whatever
  the order in which they were written.\<close>

definition fields :: "jsval \<Rightarrow> (string \<rightharpoonup> jsval)" where
  "fields a = (case a of JObj fs \<Rightarrow> map_of fs | _ \<Rightarrow> Map.empty)"

text \<open>A host for the examples: it counts the actions it has received and returns the
  action, as a store's own dispatch does. \<open>start\<close> is the world before any dispatch.\<close>

definition counting_store :: "nat pipeline" where
  "counting_store action n = (action, Suc n)"

definition start :: "nat world" where
  "start = \<lparr>dispatched = [], host = 0\<rparr>"

text \<open>Another host, whose dispatch returns a fixed acknowledgement.\<close>

definition acknowledge :: "nat pipeline" where
  "acknowledge action n = (JStr ''ok'', Suc n)"

text \<open>The actions of the examples, as the property lists of the objects.\<close>

definition fetch_resolved :: props where
  "fetch_resolved =
     [(''types'', JArr [JStr ''FETCH_START'', JStr ''FETCH_OK'', JStr ''FETCH_ERR'']), (''promise'', JPromise (Fulfilled (JNum 42)))]"

definition fetch_rejected :: props where
  "fetch_rejected =
     [(''types'', JArr [JStr ''FETCH_START'', JStr ''FETCH_OK'', JStr ''FETCH_ERR'']), (''promise'', JPromise (Rejected (JStr ''boom'')))]"

definition save_rejected :: props where
  "save_rejected =
     [(''types'', JArr [JStr ''SAVE'', JStr ''SAVED'', JStr ''SAVE_FAILED'']), (''promise'', JPromise (Rejected (JStr ''offline'')))]"

definition load_unchecked :: props where
  "load_unchecked =
     [(''types'', JArr [JStr ''LOAD'', JStr ''LOADED'', JStr ''LOAD_FAILED'']), (''promise'', JNum 1), (''id'', JNum 7)]"

definition load_resolved :: props where
  "load_resolved =
     [(''types'', JArr [JStr ''LOAD'', JStr ''LOADED'', JStr ''LOAD_FAILED'']), (''promise'', JPromise (Fulfilled (JStr ''body''))), (''id'', JNum 7)]"

definition short_resolved :: props where
  "short_resolved =
     [(''types'', JArr [JStr ''A'']), (''promise'', JPromise (Fulfilled (JNum 42)))]"

section \<open>Properties of objects\<close>

lemma map_of_set_prop: "map_of (set_prop k v fs) = (map_of fs)(k \<mapsto> v)"
  by (simp add: set_prop_def update_conv')

lemma map_of_rest_of: "map_of (rest_of fs) = (map_of fs)(''promise'' := None, ''types'' := None)"
  by (simp add: rest_of_def delete_conv')

lemma set_prop_same: "map_of (set_prop k v fs) k = Some v"
  by (simp add: map_of_set_prop)

lemma set_prop_other: "k' \<noteq> k \<Longrightarrow> map_of (set_prop k v fs) k' = map_of fs k'"
  by (simp add: map_of_set_prop)

lemma frame_request:
  "map_of (set_prop ''type'' t (rest_of fs)) |` (- {''type''}) =
   map_of fs |` (- {''promise'', ''types'', ''type''})"
  by (rule ext) (simp add: map_of_set_prop map_of_rest_of restrict_map_def)

lemma frame_success:
  "map_of (set_prop ''type'' t (set_prop ''value'' v (rest_of fs))) |` (- {''type'', ''value''}) =
   map_of fs |` (- {''promise'', ''types'', ''type'', ''value''})"
  by (rule ext) (simp add: map_of_set_prop map_of_rest_of restrict_map_def)

lemma frame_failure:
  "map_of (set_prop ''type'' t (set_prop ''error'' e (rest_of fs))) |` (- {''type'', ''error''}) =
   map_of fs |` (- {''promise'', ''types'', ''type'', ''error''})"
  by (rule ext) (simp add: map_of_set_prop map_of_rest_of restrict_map_def)

lemma restrict_determines:
  assumes "m |` (- K) = n |` (- L)"
  shows "k \<in> K \<or> m k = (n |` (- L)) k"
proof -
  have "(m |` (- K)) k = (n |` (- L)) k" using assms by simp
  then show ?thesis by (cases "k \<in> K") (simp_all add: restrict_map_def)
qed

section \<open>The call and the run, by the kind of action\<close>

lemma sync_flow:
  assumes "get_prop fs ''promise'' = JPromise s" and "get_prop fs ''types'' = JArr ts"
  shows "actionFlow next (JObj fs) w =
     (Chained s (rest_of fs) (element ts 1) (element ts 2),
      \<lparr>dispatched = dispatched w @ [JObj (set_prop ''type'' (element ts 0) (rest_of fs))],
       host = snd (next (JObj (set_prop ''type'' (element ts 0) (rest_of fs))) (host w))\<rparr>)"
  using assms by (simp add: dispatch_def Let_def split: prod.splits)

lemma sync_truthy:
  assumes "truthy (get_prop fs ''promise'')" and "get_prop fs ''types'' = JArr ts"
  shows "dispatched (snd (actionFlow next (JObj fs) w)) =
     dispatched w @ [JObj (set_prop ''type'' (element ts 0) (rest_of fs))]"
  using assms by (simp add: dispatch_def Let_def split: prod.splits jsval.splits)

lemma run_fulfilled:
  assumes "get_prop fs ''promise'' = JPromise (Fulfilled v)" and "get_prop fs ''types'' = JArr ts"
  shows "lifetime next later (JObj fs) w =
     (let req = JObj (set_prop ''type'' (element ts 0) (rest_of fs));
          succ = JObj (set_prop ''type'' (element ts 1) (set_prop ''value'' v (rest_of fs)));
          h = later (snd (next req (host w)))
      in \<lparr>result = Chained (Fulfilled v) (rest_of fs) (element ts 1) (element ts 2),
          settled = Some (resolve (fst (next succ h))),
          final = \<lparr>dispatched = dispatched w @ [req, succ], host = snd (next succ h)\<rparr>\<rparr>)"
  unfolding lifetime_def sync_flow [OF assms]
  by (simp add: react_def onFulfilled_def dispatch_def Let_def split: prod.splits)

lemma run_rejected:
  assumes "get_prop fs ''promise'' = JPromise (Rejected e)" and "get_prop fs ''types'' = JArr ts"
  shows "lifetime next later (JObj fs) w =
     (let req = JObj (set_prop ''type'' (element ts 0) (rest_of fs));
          fail = JObj (set_prop ''type'' (element ts 2) (set_prop ''error'' e (rest_of fs)));
          h = later (snd (next req (host w)))
      in \<lparr>result = Chained (Rejected e) (rest_of fs) (element ts 1) (element ts 2),
          settled = Some (Rejected e),
          final = \<lparr>dispatched = dispatched w @ [req, fail], host = snd (next fail h)\<rparr>\<rparr>)"
  unfolding lifetime_def sync_flow [OF assms]
  by (simp add: react_def onRejected_def dispatch_def Let_def split: prod.splits)

lemma run_pending:
  assumes "get_prop fs ''promise'' = JPromise Pending" and "get_prop fs ''types'' = JArr ts"
  shows "lifetime next later (JObj fs) w =
     (let req = JObj (set_prop ''type'' (element ts 0) (rest_of fs))
      in \<lparr>result = Chained Pending (rest_of fs) (element ts 1) (element ts 2),
          settled = Some Pending,
          final = \<lparr>dispatched = dispatched w @ [req], host = later (snd (next req (host w)))\<rparr>\<rparr>)"
  unfolding lifetime_def sync_flow [OF assms]
  by (simp add: react_def Let_def)

section \<open>The request, dispatched inside the call\<close>

text \<open>
  C1, as amended. For every action object whose \<^verbatim>\<open>promise\<close> is truthy and whose \<^verbatim>\<open>types\<close> is
  \<^verbatim>\<open>[A, B, C]\<close>, the call itself hands exactly one action to \<^verbatim>\<open>next\<close>. That action is
  tagged \<^verbatim>\<open>type: A\<close>; apart from \<^verbatim>\<open>type\<close> it has exactly the properties of the original
  action other than \<^verbatim>\<open>promise\<close> and \<^verbatim>\<open>types\<close>, with the same values, so these two are
  stripped. The two callbacks run after the call, so the world left by \<open>actionFlow\<close> is
  what has happened before the call completes; this holds also when \<^verbatim>\<open>promise\<close> is truthy
  without being a promise and the call ends by throwing.
\<close>

theorem request_dispatched_in_call:
  assumes "truthy (get_prop fs ''promise'')" and "get_prop fs ''types'' = JArr [A, B, C]"
  shows "\<exists>req.
      dispatched (snd (actionFlow next (JObj fs) w)) = dispatched w @ [JObj req] \<and>
      map_of req ''type'' = Some A \<and>
      map_of req |` (- {''type''}) = map_of fs |` (- {''promise'', ''types'', ''type''})"
  unfolding sync_truthy [OF assms]
  by (simp add: element_def frame_request set_prop_same)

theorem request_dispatched_in_call_witness:
  "truthy (get_prop load_unchecked ''promise'') \<and>
   get_prop load_unchecked ''types'' =
     JArr [JStr ''LOAD'', JStr ''LOADED'', JStr ''LOAD_FAILED''] \<and>
   map fields (dispatched (snd (actionFlow counting_store
       (JObj load_unchecked) start))) =
     [[''id'' \<mapsto> JNum 7, ''type'' \<mapsto> JStr ''LOAD'']]"
proof -
  let ?fs = "load_unchecked"
  have p: "truthy (get_prop ?fs ''promise'')"
    by (simp add: get_prop_def load_unchecked_def)
  have t: "get_prop ?fs ''types'' = JArr [JStr ''LOAD'', JStr ''LOADED'', JStr ''LOAD_FAILED'']"
    by (simp add: get_prop_def load_unchecked_def)
  from request_dispatched_in_call [OF p t, of counting_store start]
  obtain req where
    log: "dispatched (snd (actionFlow counting_store (JObj ?fs) start)) = [JObj req]"
    and req: "map_of req ''type'' = Some (JStr ''LOAD'')"
      "map_of req |` (- {''type''}) = map_of ?fs |` (- {''promise'', ''types'', ''type''})"
    by (auto simp: start_def)
  have "map_of req = [''id'' \<mapsto> JNum 7, ''type'' \<mapsto> JStr ''LOAD'']"
  proof
    fix k show "map_of req k = [''id'' \<mapsto> JNum 7, ''type'' \<mapsto> JStr ''LOAD''] k"
      using req(1) restrict_determines [OF req(2), of k]
      by (auto simp: restrict_map_def load_unchecked_def split: if_splits)
  qed
  then show ?thesis using p t log by (simp add: fields_def)
qed

text \<open>
  C1, as stated, asks the dispatched action to contain every field of the original action
  except \<^verbatim>\<open>promise\<close> and \<^verbatim>\<open>types\<close>. An action that has a \<^verbatim>\<open>type\<close> of its own loses it:
  \<^verbatim>\<open>{ ...rest, type: REQUEST }\<close> writes the tag over it.
\<close>

theorem own_type_field_counterexample:
  "get_prop [(''type'', JStr ''X''), (''promise'', JPromise Pending),
             (''types'', JArr [JStr ''A'', JStr ''B'', JStr ''C''])] ''type'' = JStr ''X'' \<and>
   dispatched (snd (actionFlow counting_store
       (JObj [(''type'', JStr ''X''), (''promise'', JPromise Pending),
              (''types'', JArr [JStr ''A'', JStr ''B'', JStr ''C''])]) start)) =
     [JObj [(''type'', JStr ''A'')]]"
  by (simp add: get_prop_def rest_of_def set_prop_def element_def dispatch_def
      counting_store_def start_def)

section \<open>Plain actions\<close>

text \<open>
  C2. An action object without a \<^verbatim>\<open>promise\<close> property is handed to \<^verbatim>\<open>next\<close> as it is, the
  call returns what \<^verbatim>\<open>next\<close> returned for it, no promise is returned, and over the whole
  run that action is the only one dispatched.
\<close>

theorem plain_action_forwarded:
  assumes "map_of fs ''promise'' = None"
  shows "lifetime next later (JObj fs) w =
     \<lparr>result = Returned (fst (next (JObj fs) (host w))), settled = None,
      final = \<lparr>dispatched = dispatched w @ [JObj fs], host = snd (next (JObj fs) (host w))\<rparr>\<rparr>"
  using assms by (simp add: lifetime_def get_prop_def dispatch_def Let_def split: prod.splits)

theorem plain_action_forwarded_witness:
  "map_of [(''type'', JStr ''PING''), (''id'', JNum 7)] ''promise'' = None \<and>
   lifetime counting_store id (JObj [(''type'', JStr ''PING''), (''id'', JNum 7)]) start =
     \<lparr>result = Returned (JObj [(''type'', JStr ''PING''), (''id'', JNum 7)]), settled = None,
      final = \<lparr>dispatched = [JObj [(''type'', JStr ''PING''), (''id'', JNum 7)]], host = 1\<rparr>\<rparr>"
  using plain_action_forwarded [of "[(''type'', JStr ''PING''), (''id'', JNum 7)]" counting_store id start]
  by (simp add: counting_store_def start_def)

section \<open>Fulfilment\<close>

text \<open>
  C3. For every flow action with \<^verbatim>\<open>types = [A, B, C]\<close> whose promise is fulfilled with
  \<open>v\<close>, the run dispatches the request tagged \<open>A\<close> and then an action tagged \<open>B\<close> whose
  \<^verbatim>\<open>value\<close> is \<open>v\<close> and whose other properties are the remaining ones of the original
  action. The witness is the example of the specification: for
  \<^verbatim>\<open>{types: ['FETCH_START', 'FETCH_OK', 'FETCH_ERR'], promise: Promise.resolve(42)}\<close> the
  dispatches are \<^verbatim>\<open>{type: 'FETCH_START'}\<close> and then \<^verbatim>\<open>{type: 'FETCH_OK', value: 42}\<close>.
\<close>

theorem fulfilled_dispatches_success:
  assumes "get_prop fs ''promise'' = JPromise (Fulfilled v)"
    and "get_prop fs ''types'' = JArr [A, B, C]"
  shows "\<exists>req succ.
      dispatched (final (lifetime next later (JObj fs) w)) = dispatched w @ [JObj req, JObj succ] \<and>
      map_of req ''type'' = Some A \<and>
      map_of req |` (- {''type''}) = map_of fs |` (- {''promise'', ''types'', ''type''}) \<and>
      map_of succ ''type'' = Some B \<and>
      map_of succ ''value'' = Some v \<and>
      map_of succ |` (- {''type'', ''value''}) =
        map_of fs |` (- {''promise'', ''types'', ''type'', ''value''})"
  by (simp add: run_fulfilled [OF assms] element_def Let_def frame_request frame_success
      set_prop_same set_prop_other)

theorem fulfilled_dispatches_success_witness:
  "get_prop fetch_resolved ''promise'' = JPromise (Fulfilled (JNum 42)) \<and>
   get_prop fetch_resolved ''types'' =
     JArr [JStr ''FETCH_START'', JStr ''FETCH_OK'', JStr ''FETCH_ERR''] \<and>
   map fields (dispatched (final (lifetime counting_store id
       (JObj fetch_resolved) start))) =
     [[''type'' \<mapsto> JStr ''FETCH_START''], [''type'' \<mapsto> JStr ''FETCH_OK'', ''value'' \<mapsto> JNum 42]]"
proof -
  let ?fs = "fetch_resolved"
  have p: "get_prop ?fs ''promise'' = JPromise (Fulfilled (JNum 42))"
    by (simp add: get_prop_def fetch_resolved_def)
  have t: "get_prop ?fs ''types'' = JArr [JStr ''FETCH_START'', JStr ''FETCH_OK'', JStr ''FETCH_ERR'']"
    by (simp add: get_prop_def fetch_resolved_def)
  from fulfilled_dispatches_success [OF p t, of counting_store id start]
  obtain req succ where
    log: "dispatched (final (lifetime counting_store id (JObj ?fs) start)) = [JObj req, JObj succ]"
    and req: "map_of req ''type'' = Some (JStr ''FETCH_START'')"
      "map_of req |` (- {''type''}) = map_of ?fs |` (- {''promise'', ''types'', ''type''})"
    and succ: "map_of succ ''type'' = Some (JStr ''FETCH_OK'')" "map_of succ ''value'' = Some (JNum 42)"
      "map_of succ |` (- {''type'', ''value''}) =
         map_of ?fs |` (- {''promise'', ''types'', ''type'', ''value''})"
    by (auto simp: start_def)
  have "map_of req = [''type'' \<mapsto> JStr ''FETCH_START'']"
  proof
    fix k show "map_of req k = [''type'' \<mapsto> JStr ''FETCH_START''] k"
      using req(1) restrict_determines [OF req(2), of k]
      by (auto simp: restrict_map_def fetch_resolved_def split: if_splits)
  qed
  moreover have "map_of succ = [''type'' \<mapsto> JStr ''FETCH_OK'', ''value'' \<mapsto> JNum 42]"
  proof
    fix k show "map_of succ k = [''type'' \<mapsto> JStr ''FETCH_OK'', ''value'' \<mapsto> JNum 42] k"
      using succ(1,2) restrict_determines [OF succ(3), of k]
      by (auto simp: restrict_map_def fetch_resolved_def split: if_splits)
  qed
  ultimately show ?thesis using p t log by (simp add: fields_def)
qed

section \<open>Rejection\<close>

text \<open>
  C4. For every flow action with \<^verbatim>\<open>types = [A, B, C]\<close> whose promise is rejected with
  reason \<open>e\<close>, the run dispatches the request and then an action tagged \<open>C\<close> whose
  \<^verbatim>\<open>error\<close> is \<open>e\<close>, and the promise returned by the middleware is rejected with the same
  reason \<open>e\<close>. The witness is the specification's example with \<^verbatim>\<open>Promise.reject('boom')\<close>.
\<close>

theorem rejected_dispatches_failure:
  assumes "get_prop fs ''promise'' = JPromise (Rejected e)"
    and "get_prop fs ''types'' = JArr [A, B, C]"
  shows "\<exists>req fail.
      dispatched (final (lifetime next later (JObj fs) w)) = dispatched w @ [JObj req, JObj fail] \<and>
      map_of req ''type'' = Some A \<and>
      map_of req |` (- {''type''}) = map_of fs |` (- {''promise'', ''types'', ''type''}) \<and>
      map_of fail ''type'' = Some C \<and>
      map_of fail ''error'' = Some e \<and>
      map_of fail |` (- {''type'', ''error''}) =
        map_of fs |` (- {''promise'', ''types'', ''type'', ''error''}) \<and>
      settled (lifetime next later (JObj fs) w) = Some (Rejected e)"
  by (simp add: run_rejected [OF assms] element_def Let_def frame_request frame_failure
      set_prop_same set_prop_other)

theorem rejected_dispatches_failure_witness:
  "get_prop fetch_rejected ''promise'' =
     JPromise (Rejected (JStr ''boom'')) \<and>
   get_prop fetch_rejected ''types'' =
     JArr [JStr ''FETCH_START'', JStr ''FETCH_OK'', JStr ''FETCH_ERR''] \<and>
   map fields (dispatched (final (lifetime counting_store id
       (JObj fetch_rejected) start))) =
     [[''type'' \<mapsto> JStr ''FETCH_START''], [''type'' \<mapsto> JStr ''FETCH_ERR'', ''error'' \<mapsto> JStr ''boom'']] \<and>
   settled (lifetime counting_store id
       (JObj fetch_rejected) start) =
     Some (Rejected (JStr ''boom''))"
proof -
  let ?fs = "fetch_rejected"
  have p: "get_prop ?fs ''promise'' = JPromise (Rejected (JStr ''boom''))"
    by (simp add: get_prop_def fetch_rejected_def)
  have t: "get_prop ?fs ''types'' = JArr [JStr ''FETCH_START'', JStr ''FETCH_OK'', JStr ''FETCH_ERR'']"
    by (simp add: get_prop_def fetch_rejected_def)
  from rejected_dispatches_failure [OF p t, of counting_store id start]
  obtain req fail where
    log: "dispatched (final (lifetime counting_store id (JObj ?fs) start)) = [JObj req, JObj fail]"
    and req: "map_of req ''type'' = Some (JStr ''FETCH_START'')"
      "map_of req |` (- {''type''}) = map_of ?fs |` (- {''promise'', ''types'', ''type''})"
    and fail: "map_of fail ''type'' = Some (JStr ''FETCH_ERR'')"
      "map_of fail ''error'' = Some (JStr ''boom'')"
      "map_of fail |` (- {''type'', ''error''}) =
         map_of ?fs |` (- {''promise'', ''types'', ''type'', ''error''})"
    and rej: "settled (lifetime counting_store id (JObj ?fs) start) = Some (Rejected (JStr ''boom''))"
    by (auto simp: start_def)
  have "map_of req = [''type'' \<mapsto> JStr ''FETCH_START'']"
  proof
    fix k show "map_of req k = [''type'' \<mapsto> JStr ''FETCH_START''] k"
      using req(1) restrict_determines [OF req(2), of k]
      by (auto simp: restrict_map_def fetch_rejected_def split: if_splits)
  qed
  moreover have "map_of fail = [''type'' \<mapsto> JStr ''FETCH_ERR'', ''error'' \<mapsto> JStr ''boom'']"
  proof
    fix k show "map_of fail k = [''type'' \<mapsto> JStr ''FETCH_ERR'', ''error'' \<mapsto> JStr ''boom''] k"
      using fail(1,2) restrict_determines [OF fail(3), of k]
      by (auto simp: restrict_map_def fetch_rejected_def split: if_splits)
  qed
  ultimately show ?thesis using p t log rej by (simp add: fields_def)
qed

section \<open>One dispatch per settlement\<close>

text \<open>
  C5, as amended. For every flow action with \<^verbatim>\<open>types = [A, B, C]\<close>, the call dispatches the
  request, and what follows is decided by the settlement of the promise: fulfilled with
  \<open>v\<close>, exactly one more action is dispatched, tagged \<open>B\<close> with \<^verbatim>\<open>value\<close> \<open>v\<close>; rejected
  with \<open>e\<close>, exactly one more, tagged \<open>C\<close> with \<^verbatim>\<open>error\<close> \<open>e\<close>; never both and never a
  second time. When the promise never settles, nothing follows the request.
\<close>

theorem settlement_decides_second_dispatch:
  assumes "get_prop fs ''promise'' = JPromise s" and "get_prop fs ''types'' = JArr [A, B, C]"
  shows "\<exists>req.
      dispatched (snd (actionFlow next (JObj fs) w)) = dispatched w @ [JObj req] \<and>
      map_of req ''type'' = Some A \<and>
      (case s of
         Fulfilled v \<Rightarrow>
           (\<exists>succ. dispatched (final (lifetime next later (JObj fs) w)) =
                     dispatched w @ [JObj req, JObj succ] \<and>
                   map_of succ ''type'' = Some B \<and> map_of succ ''value'' = Some v)
       | Rejected e \<Rightarrow>
           (\<exists>fail. dispatched (final (lifetime next later (JObj fs) w)) =
                     dispatched w @ [JObj req, JObj fail] \<and>
                   map_of fail ''type'' = Some C \<and> map_of fail ''error'' = Some e)
       | Pending \<Rightarrow>
           dispatched (final (lifetime next later (JObj fs) w)) = dispatched w @ [JObj req])"
proof (cases s)
  case (Fulfilled v)
  then show ?thesis
    using run_fulfilled [OF assms [unfolded Fulfilled], of "next" later w]
    unfolding sync_flow [OF assms]
    by (simp add: element_def Let_def set_prop_same set_prop_other)
next
  case (Rejected e)
  then show ?thesis
    using run_rejected [OF assms [unfolded Rejected], of "next" later w]
    unfolding sync_flow [OF assms]
    by (simp add: element_def Let_def set_prop_same set_prop_other)
next
  case Pending
  then show ?thesis
    using run_pending [OF assms [unfolded Pending], of "next" later w]
    unfolding sync_flow [OF assms]
    by (simp add: element_def Let_def set_prop_same)
qed

theorem settlement_decides_second_dispatch_witness:
  "get_prop save_rejected ''promise'' =
     JPromise (Rejected (JStr ''offline'')) \<and>
   get_prop save_rejected ''types'' =
     JArr [JStr ''SAVE'', JStr ''SAVED'', JStr ''SAVE_FAILED''] \<and>
   length (dispatched (final (lifetime counting_store id
       (JObj save_rejected) start))) = 2 \<and>
   fields (dispatched (final (lifetime counting_store id
       (JObj save_rejected) start)) ! 1) ''type'' =
     Some (JStr ''SAVE_FAILED'')"
proof -
  let ?fs = "save_rejected"
  have p: "get_prop ?fs ''promise'' = JPromise (Rejected (JStr ''offline''))"
    by (simp add: get_prop_def save_rejected_def)
  have t: "get_prop ?fs ''types'' = JArr [JStr ''SAVE'', JStr ''SAVED'', JStr ''SAVE_FAILED'']"
    by (simp add: get_prop_def save_rejected_def)
  from settlement_decides_second_dispatch [OF p t, of counting_store start id]
  obtain req fail where
    "dispatched (final (lifetime counting_store id (JObj ?fs) start)) = [JObj req, JObj fail]"
    "map_of fail ''type'' = Some (JStr ''SAVE_FAILED'')"
    by (auto simp: start_def)
  then show ?thesis using p t by (simp add: fields_def)
qed

text \<open>
  C5, as stated, promises the second dispatch for every flow action. A promise that never
  settles gets none: the run ends with the request alone.
\<close>

theorem never_settling_counterexample:
  "dispatched (final (lifetime counting_store id
       (JObj [(''types'', JArr [JStr ''FETCH_START'', JStr ''FETCH_OK'', JStr ''FETCH_ERR'']),
              (''promise'', JPromise Pending)]) start)) =
     [JObj [(''type'', JStr ''FETCH_START'')]]"
  by (simp add: lifetime_def react_def get_prop_def rest_of_def set_prop_def element_def
      dispatch_def counting_store_def start_def)

section \<open>The caller's own fields\<close>

text \<open>
  C6, as amended. For every flow action, every field of the action other than
  \<^verbatim>\<open>promise\<close> and \<^verbatim>\<open>types\<close> is present with the same value in each derived action, except
  that a field named \<^verbatim>\<open>type\<close> is replaced by the tag in all of them, a field named
  \<^verbatim>\<open>value\<close> by the resolved value in the SUCCESS action and a field named \<^verbatim>\<open>error\<close> by
  the reason in the FAILURE action. The derived actions have no other fields.
\<close>

theorem rest_fields_preserved:
  assumes "get_prop fs ''promise'' = JPromise s" and "get_prop fs ''types'' = JArr [A, B, C]"
  shows "\<exists>req.
      dispatched (snd (actionFlow next (JObj fs) w)) = dispatched w @ [JObj req] \<and>
      map_of req |` (- {''type''}) = map_of fs |` (- {''promise'', ''types'', ''type''}) \<and>
      (case s of
         Fulfilled v \<Rightarrow>
           (\<exists>succ. dispatched (final (lifetime next later (JObj fs) w)) =
                     dispatched w @ [JObj req, JObj succ] \<and>
                   map_of succ |` (- {''type'', ''value''}) =
                     map_of fs |` (- {''promise'', ''types'', ''type'', ''value''}))
       | Rejected e \<Rightarrow>
           (\<exists>fail. dispatched (final (lifetime next later (JObj fs) w)) =
                     dispatched w @ [JObj req, JObj fail] \<and>
                   map_of fail |` (- {''type'', ''error''}) =
                     map_of fs |` (- {''promise'', ''types'', ''type'', ''error''}))
       | Pending \<Rightarrow>
           dispatched (final (lifetime next later (JObj fs) w)) = dispatched w @ [JObj req])"
proof (cases s)
  case (Fulfilled v)
  then show ?thesis
    using run_fulfilled [OF assms [unfolded Fulfilled], of "next" later w]
    unfolding sync_flow [OF assms]
    by (simp add: Let_def frame_request frame_success)
next
  case (Rejected e)
  then show ?thesis
    using run_rejected [OF assms [unfolded Rejected], of "next" later w]
    unfolding sync_flow [OF assms]
    by (simp add: Let_def frame_request frame_failure)
next
  case Pending
  then show ?thesis
    using run_pending [OF assms [unfolded Pending], of "next" later w]
    unfolding sync_flow [OF assms]
    by (simp add: Let_def frame_request)
qed

theorem rest_fields_preserved_witness:
  "get_prop load_resolved ''promise'' =
     JPromise (Fulfilled (JStr ''body'')) \<and>
   get_prop load_resolved ''types'' =
     JArr [JStr ''LOAD'', JStr ''LOADED'', JStr ''LOAD_FAILED''] \<and>
   fields (dispatched (final (lifetime counting_store id
       (JObj load_resolved) start)) ! 0)
     ''id'' = Some (JNum 7) \<and>
   fields (dispatched (final (lifetime counting_store id
       (JObj load_resolved) start)) ! 1)
     ''id'' = Some (JNum 7)"
proof -
  let ?fs = "load_resolved"
  have p: "get_prop ?fs ''promise'' = JPromise (Fulfilled (JStr ''body''))"
    by (simp add: get_prop_def load_resolved_def)
  have t: "get_prop ?fs ''types'' = JArr [JStr ''LOAD'', JStr ''LOADED'', JStr ''LOAD_FAILED'']"
    by (simp add: get_prop_def load_resolved_def)
  from rest_fields_preserved [OF p t, of counting_store start id]
  obtain req succ where
    log: "dispatched (final (lifetime counting_store id (JObj ?fs) start)) = [JObj req, JObj succ]"
    and req: "map_of req |` (- {''type''}) = map_of ?fs |` (- {''promise'', ''types'', ''type''})"
    and succ: "map_of succ |` (- {''type'', ''value''}) =
         map_of ?fs |` (- {''promise'', ''types'', ''type'', ''value''})"
    by (auto simp: start_def)
  have "map_of req ''id'' = Some (JNum 7)"
    using restrict_determines [OF req, of "''id''"] by (simp add: restrict_map_def load_resolved_def)
  moreover have "map_of succ ''id'' = Some (JNum 7)"
    using restrict_determines [OF succ, of "''id''"] by (simp add: restrict_map_def load_resolved_def)
  ultimately show ?thesis using p t log by (simp add: fields_def)
qed

text \<open>
  C6, as stated, keeps every such field identical in every derived action. A caller's
  field \<^verbatim>\<open>value: 7\<close> reaches the request unchanged, but the SUCCESS action carries the
  resolved value 42 under that name.
\<close>

theorem overwritten_rest_field_counterexample:
  "get_prop [(''types'', JArr [JStr ''A'', JStr ''B'', JStr ''C'']),
             (''promise'', JPromise (Fulfilled (JNum 42))), (''value'', JNum 7)] ''value'' = JNum 7 \<and>
   dispatched (final (lifetime counting_store id
       (JObj [(''types'', JArr [JStr ''A'', JStr ''B'', JStr ''C'']),
              (''promise'', JPromise (Fulfilled (JNum 42))), (''value'', JNum 7)]) start)) =
     [JObj [(''value'', JNum 7), (''type'', JStr ''A'')],
      JObj [(''value'', JNum 42), (''type'', JStr ''B'')]]"
  by (simp add: lifetime_def react_def onFulfilled_def get_prop_def rest_of_def set_prop_def
      element_def dispatch_def counting_store_def start_def)

section \<open>Fewer than three types\<close>

text \<open>
  C7, as amended. For every action whose \<^verbatim>\<open>promise\<close> is a promise and whose \<^verbatim>\<open>types\<close> is
  an array of fewer than three elements, nothing is validated and the call does not throw:
  it dispatches the request and returns the chained promise, and each derived action takes
  the element of \<^verbatim>\<open>types\<close> at its position as its tag, \<^verbatim>\<open>undefined\<close> where the array has
  no such position (always so for the FAILURE action).
\<close>

theorem short_types_not_validated:
  assumes "get_prop fs ''promise'' = JPromise s" and "get_prop fs ''types'' = JArr ts"
    and "length ts < 3"
  shows "\<exists>req rest SUCCESS.
      actionFlow next (JObj fs) w =
        (Chained s rest SUCCESS JUndefined,
         \<lparr>dispatched = dispatched w @ [JObj req], host = snd (next (JObj req) (host w))\<rparr>) \<and>
      map_of req ''type'' = Some (if 0 < length ts then ts ! 0 else JUndefined) \<and>
      (case s of
         Fulfilled v \<Rightarrow>
           (\<exists>succ. dispatched (final (lifetime next later (JObj fs) w)) =
                     dispatched w @ [JObj req, JObj succ] \<and>
                   map_of succ ''type'' = Some (if 1 < length ts then ts ! 1 else JUndefined))
       | Rejected e \<Rightarrow>
           (\<exists>fail. dispatched (final (lifetime next later (JObj fs) w)) =
                     dispatched w @ [JObj req, JObj fail] \<and>
                   map_of fail ''type'' = Some JUndefined)
       | Pending \<Rightarrow>
           dispatched (final (lifetime next later (JObj fs) w)) = dispatched w @ [JObj req])"
proof (cases s)
  case (Fulfilled v)
  then show ?thesis
    using run_fulfilled [OF assms(1,2) [unfolded Fulfilled], of "next" later w] assms(3)
    unfolding sync_flow [OF assms(1,2)]
    by (simp add: element_def Let_def set_prop_same)
next
  case (Rejected e)
  then show ?thesis
    using run_rejected [OF assms(1,2) [unfolded Rejected], of "next" later w] assms(3)
    unfolding sync_flow [OF assms(1,2)]
    by (simp add: element_def Let_def set_prop_same)
next
  case Pending
  then show ?thesis
    using run_pending [OF assms(1,2) [unfolded Pending], of "next" later w] assms(3)
    unfolding sync_flow [OF assms(1,2)]
    by (simp add: element_def Let_def set_prop_same)
qed

theorem short_types_not_validated_witness:
  "get_prop short_resolved
     ''promise'' = JPromise (Fulfilled (JNum 42)) \<and>
   get_prop short_resolved
     ''types'' = JArr [JStr ''A''] \<and>
   length [JStr ''A''] < 3 \<and>
   fields (dispatched (final (lifetime counting_store id
       (JObj short_resolved)
       start)) ! 0) ''type'' = Some (JStr ''A'') \<and>
   fields (dispatched (final (lifetime counting_store id
       (JObj short_resolved)
       start)) ! 1) ''type'' = Some JUndefined"
proof -
  let ?fs = "short_resolved"
  have p: "get_prop ?fs ''promise'' = JPromise (Fulfilled (JNum 42))"
    by (simp add: get_prop_def short_resolved_def)
  have t: "get_prop ?fs ''types'' = JArr [JStr ''A'']"
    by (simp add: get_prop_def short_resolved_def)
  have n: "length [JStr ''A''] < 3"
    by simp
  from short_types_not_validated [OF p t n, of counting_store start id]
  obtain req succ where
    "dispatched (final (lifetime counting_store id (JObj ?fs) start)) = [JObj req, JObj succ]"
    "map_of req ''type'' = Some (JStr ''A'')" "map_of succ ''type'' = Some JUndefined"
    by (auto simp: start_def)
  then show ?thesis using p t by (simp add: fields_def)
qed

text \<open>
  C7, as stated, covers every truthy \<^verbatim>\<open>promise\<close>. With \<^verbatim>\<open>promise: true\<close> the request is
  dispatched and then \<^verbatim>\<open>promise.then\<close> is not a function: the call throws a TypeError.
\<close>

theorem not_a_promise_counterexample:
  "truthy (get_prop [(''types'', JArr [JStr ''A'']), (''promise'', JBool True)] ''promise'') \<and>
   lifetime counting_store id
       (JObj [(''types'', JArr [JStr ''A'']), (''promise'', JBool True)]) start =
     \<lparr>result = Thrown JTypeError, settled = None,
      final = \<lparr>dispatched = [JObj [(''type'', JStr ''A'')]], host = 1\<rparr>\<rparr>"
  by (simp add: lifetime_def get_prop_def rest_of_def set_prop_def element_def dispatch_def
      counting_store_def start_def)

section \<open>A promise field that is falsy\<close>

text \<open>
  C8. An action object whose \<^verbatim>\<open>promise\<close> property is present but falsy is treated as a
  plain action: the object itself, its \<^verbatim>\<open>promise\<close> property included, is handed to
  \<^verbatim>\<open>next\<close>, the call returns the result of \<^verbatim>\<open>next\<close>, no promise is returned and nothing
  else is dispatched, whatever \<^verbatim>\<open>types\<close> holds. So the flow branch needs a truthy
  \<^verbatim>\<open>promise\<close>, not just a present one.
\<close>

theorem falsy_promise_forwarded:
  assumes "map_of fs ''promise'' = Some p" and "\<not> truthy p"
  shows "lifetime next later (JObj fs) w =
     \<lparr>result = Returned (fst (next (JObj fs) (host w))), settled = None,
      final = \<lparr>dispatched = dispatched w @ [JObj fs], host = snd (next (JObj fs) (host w))\<rparr>\<rparr>"
  using assms by (simp add: lifetime_def get_prop_def dispatch_def Let_def split: prod.splits)

theorem falsy_promise_forwarded_witness:
  "map_of [(''type'', JStr ''PING''), (''promise'', JNum 0), (''types'', JNull)] ''promise'' =
     Some (JNum 0) \<and>
   \<not> truthy (JNum 0) \<and>
   lifetime counting_store id
       (JObj [(''type'', JStr ''PING''), (''promise'', JNum 0), (''types'', JNull)]) start =
     \<lparr>result = Returned (JObj [(''type'', JStr ''PING''), (''promise'', JNum 0), (''types'', JNull)]),
      settled = None,
      final = \<lparr>dispatched = [JObj [(''type'', JStr ''PING''), (''promise'', JNum 0), (''types'', JNull)]],
               host = 1\<rparr>\<rparr>"
  using falsy_promise_forwarded
    [of "[(''type'', JStr ''PING''), (''promise'', JNum 0), (''types'', JNull)]" "JNum 0"
        counting_store id start]
  by (simp add: counting_store_def start_def)

section \<open>What the returned promise resolves to\<close>

text \<open>
  C9. For every flow action whose promise is fulfilled, the promise returned by the
  middleware is resolved with what \<^verbatim>\<open>next\<close> returned for the SUCCESS action, not with the
  value of the action's promise. In the witness the promise is fulfilled with 42 and the
  host returns \<^verbatim>\<open>'ok'\<close>: the returned promise is fulfilled with \<^verbatim>\<open>'ok'\<close>.
\<close>

theorem returned_promise_takes_result_of_next:
  assumes "get_prop fs ''promise'' = JPromise (Fulfilled v)"
    and "get_prop fs ''types'' = JArr [A, B, C]"
  shows "\<exists>req succ.
      dispatched (final (lifetime next later (JObj fs) w)) = dispatched w @ [JObj req, JObj succ] \<and>
      map_of succ ''type'' = Some B \<and>
      map_of succ ''value'' = Some v \<and>
      settled (lifetime next later (JObj fs) w) =
        Some (resolve (fst (next (JObj succ) (later (snd (next (JObj req) (host w)))))))"
  by (simp add: run_fulfilled [OF assms] element_def Let_def set_prop_same set_prop_other)

theorem returned_promise_takes_result_of_next_witness:
  "get_prop fetch_resolved ''promise'' = JPromise (Fulfilled (JNum 42)) \<and>
   get_prop fetch_resolved ''types'' =
     JArr [JStr ''FETCH_START'', JStr ''FETCH_OK'', JStr ''FETCH_ERR''] \<and>
   settled (lifetime acknowledge id
       (JObj fetch_resolved) start) =
     Some (Fulfilled (JStr ''ok''))"
proof -
  let ?fs = "fetch_resolved"
  have p: "get_prop ?fs ''promise'' = JPromise (Fulfilled (JNum 42))"
    by (simp add: get_prop_def fetch_resolved_def)
  have t: "get_prop ?fs ''types'' = JArr [JStr ''FETCH_START'', JStr ''FETCH_OK'', JStr ''FETCH_ERR'']"
    by (simp add: get_prop_def fetch_resolved_def)
  from returned_promise_takes_result_of_next [OF p t, of acknowledge id start]
  have "settled (lifetime acknowledge id (JObj ?fs) start) = Some (Fulfilled (JStr ''ok''))"
    by (auto simp: acknowledge_def)
  then show ?thesis using p t by simp
qed

section \<open>No types at all\<close>

text \<open>
  C10. For every action object with a truthy \<^verbatim>\<open>promise\<close> whose \<^verbatim>\<open>types\<close> is undefined
  (the property is missing, or holds \<^verbatim>\<open>undefined\<close>), the call throws a TypeError at the
  array pattern, before any dispatch: the world is left as it was, no promise is returned,
  and so no REQUEST, SUCCESS or FAILURE action is ever dispatched.
\<close>

theorem missing_types_throws_before_dispatch:
  assumes "truthy (get_prop fs ''promise'')" and "get_prop fs ''types'' = JUndefined"
  shows "lifetime next later (JObj fs) w =
     \<lparr>result = Thrown JTypeError, settled = None, final = w\<rparr>"
  using assms by (simp add: lifetime_def)

theorem missing_types_throws_before_dispatch_witness:
  "truthy (get_prop [(''promise'', JPromise (Fulfilled (JNum 42))), (''id'', JNum 7)] ''promise'') \<and>
   get_prop [(''promise'', JPromise (Fulfilled (JNum 42))), (''id'', JNum 7)] ''types'' = JUndefined \<and>
   lifetime counting_store id
       (JObj [(''promise'', JPromise (Fulfilled (JNum 42))), (''id'', JNum 7)]) start =
     \<lparr>result = Thrown JTypeError, settled = None, final = \<lparr>dispatched = [], host = 0\<rparr>\<rparr>"
proof -
  let ?fs = "[(''promise'', JPromise (Fulfilled (JNum 42))), (''id'', JNum 7)]"
  have p: "truthy (get_prop ?fs ''promise'')"
    by (simp add: get_prop_def)
  have t: "get_prop ?fs ''types'' = JUndefined"
    by (simp add: get_prop_def)
  show ?thesis
    using p t missing_types_throws_before_dispatch [OF p t, of counting_store id start]
    by (simp add: start_def)
qed

end
